theory Spec2Isabelle
  imports Main "HOL-Library.Multiset" "HOL-Library.Char_ord" "HOL-Library.List_Lexorder"
begin

section \<open>Python strings\<close>

text \<open>
  A Python \<open>str\<close> is a sequence of code points. The model is \<open>string\<close>, a list
  of \<open>char\<close>, and a \<open>char\<close> stands for the code point of the same number: the model
  covers text whose code points lie below 256. The string methods the script calls are
  written out on that range.
\<close>

text \<open>\<open>str.startswith(prefix)\<close> and \<open>str.endswith(suffix)\<close>.\<close>

fun startswith :: "string \<Rightarrow> string \<Rightarrow> bool" where
  "startswith s [] = True"
| "startswith [] (p # ps) = False"
| "startswith (c # cs) (p # ps) = (c = p \<and> startswith cs ps)"

definition endswith :: "string \<Rightarrow> string \<Rightarrow> bool" where
  "endswith s suffix = startswith (rev s) (rev suffix)"

text \<open>
  \<open>str.isspace\<close> on one code point: below 256 the white space of Python is
  \<open>\t \n \x0b \x0c \r\<close>, \<open>\x1c\<close> to \<open>\x1f\<close>, the blank, \<open>\x85\<close> and \<open>\xa0\<close>.
\<close>

definition isspace :: "char \<Rightarrow> bool" where
  "isspace c =
     (let n = (of_char c :: nat)
      in (9 \<le> n \<and> n \<le> 13) \<or> (28 \<le> n \<and> n \<le> 32) \<or> n = 133 \<or> n = 160)"

text \<open>\<open>str.strip()\<close>: white space is removed at both ends.\<close>

definition strip :: "string \<Rightarrow> string" where
  "strip s = rev (dropWhile isspace (rev (dropWhile isspace s)))"

text \<open>
  \<open>str.lower()\<close>: below 256 the upper-case code points are \<open>A\<close> to \<open>Z\<close> and
  \<open>\xc0\<close> to \<open>\xde\<close> without the multiplication sign \<open>\xd7\<close>; each moves up by 32.
\<close>

definition lower_char :: "char \<Rightarrow> char" where
  "lower_char c =
     (let n = (of_char c :: nat)
      in if (65 \<le> n \<and> n \<le> 90) \<or> (192 \<le> n \<and> n \<le> 222 \<and> n \<noteq> 215)
         then char_of (n + 32) else c)"

definition lower :: "string \<Rightarrow> string" where
  "lower s = map lower_char s"

text \<open>
  \<open>str.split(sep)\<close> for a separator that is not empty: the string is cut at each
  occurrence of \<open>sep\<close>, found from the left and not overlapping. \<open>split_from\<close> scans
  \<open>s\<close> with the piece read so far, reversed, in \<open>acc\<close>. Python raises \<open>ValueError\<close>
  for an empty separator; every call of the script passes a literal of one or two
  characters, and with \<open>sep = []\<close> the model never cuts.
\<close>

function split_from :: "string \<Rightarrow> string \<Rightarrow> string \<Rightarrow> string list" where
  "split_from sep acc [] = [rev acc]"
| "split_from sep acc (c # cs) =
     (if sep \<noteq> [] \<and> startswith (c # cs) sep
      then rev acc # split_from sep [] (drop (length sep) (c # cs))
      else split_from sep (c # acc) cs)"
  by pat_completeness auto
termination
  by (relation "measure (\<lambda>(sep, acc, s). length s)") auto

definition str_split :: "string \<Rightarrow> string \<Rightarrow> string list" where
  "str_split s sep = split_from sep [] s"

section \<open>The syntax tree\<close>

text \<open>
  \<open>ast.parse\<close> is the parser of the language and is not part of the script. Its result
  is modelled as data: an \<open>ast_alias\<close> (Python's \<open>ast.alias\<close>) is one
  \<open>name [as asname]\<close> of an import statement, \<open>Import\<close> and \<open>ImportFrom\<close> are the
  two import statements with the fields the parser gives them (\<open>module\<close> is \<open>None\<close>
  for \<open>from . import x\<close>), and \<open>Node\<close> is any other node with its child nodes (the
  module itself, a function body, a \<open>try\<close>, an expression).
\<close>

datatype ast_alias = Alias (name: string) (asname: "string option")

datatype node =
    Import "ast_alias list"
  | ImportFrom "string option" "ast_alias list" nat
  | AliasNode ast_alias
  | Node "node list"

text \<open>\<open>ast.iter_child_nodes\<close>: the aliases of an import statement are nodes too.\<close>

fun iter_child_nodes :: "node \<Rightarrow> node list" where
  "iter_child_nodes (Import names) = map AliasNode names"
| "iter_child_nodes (ImportFrom module names level) = map AliasNode names"
| "iter_child_nodes (AliasNode a) = []"
| "iter_child_nodes (Node children) = children"

text \<open>
  \<open>ast.walk\<close>: breadth first, from a queue that starts with the root; each node taken
  from the front is yielded and its children are appended at the back. The queue
  empties because the number of nodes still to come, \<open>count_nodes\<close>, goes down.
\<close>

fun count_nodes :: "node \<Rightarrow> nat" where
  "count_nodes (Import names) = Suc (length names)"
| "count_nodes (ImportFrom module names level) = Suc (length names)"
| "count_nodes (AliasNode a) = 1"
| "count_nodes (Node children) = Suc (sum_list (map count_nodes children))"

function walk_queue :: "node list \<Rightarrow> node list" where
  "walk_queue [] = []"
| "walk_queue (n # todo) = n # walk_queue (todo @ iter_child_nodes n)"
  by pat_completeness auto
termination
proof (relation "measure (\<lambda>q. sum_list (map count_nodes q))")
  show "wf (measure (\<lambda>q. sum_list (map count_nodes q)))" by simp
next
  fix n :: node and todo :: "node list"
  have "sum_list (map count_nodes (iter_child_nodes n)) < count_nodes n"
    by (cases n) (simp_all add: comp_def sum_list_triv)
  then show "(todo @ iter_child_nodes n, n # todo) \<in> measure (\<lambda>q. sum_list (map count_nodes q))"
    by simp
qed

definition walk :: "node \<Rightarrow> node list" where
  "walk n = walk_queue [n]"

section \<open>The import extractor\<close>

datatype error = OSError | SyntaxError

text \<open>
  A source file is what \<open>open\<close>, \<open>read\<close> and \<open>ast.parse\<close> make of it: \<open>Inl OSError\<close>
  when it cannot be opened or read, \<open>Inl SyntaxError\<close> when its text is not valid
  source, and the syntax tree otherwise. These are the two kinds of error the script can
  meet; none is caught anywhere.
\<close>

type_synonym source_file = "error + node"

text \<open>The inner loop \<open>for n in item.names: modules.add(n.name.split('.')[0])\<close>.\<close>

fun add_names :: "string set \<Rightarrow> ast_alias list \<Rightarrow> string set" where
  "add_names modules [] = modules"
| "add_names modules (n # names) = add_names (insert (hd (str_split (name n) ''.'')) modules) names"

text \<open>
  The body of the loop over the nodes. \<open>if item.module\<close> is false for \<open>None\<close> and for
  the empty string.
\<close>

fun visit :: "string set \<Rightarrow> node \<Rightarrow> string set" where
  "visit modules (Import names) = add_names modules names"
| "visit modules (ImportFrom module names level) =
     (case module of
        None \<Rightarrow> modules
      | Some m \<Rightarrow> if m \<noteq> [] then insert (hd (str_split m ''.'')) modules else modules)"
| "visit modules (AliasNode a) = modules"
| "visit modules (Node children) = modules"

fun visit_all :: "string set \<Rightarrow> node list \<Rightarrow> string set" where
  "visit_all modules [] = modules"
| "visit_all modules (item # items) = visit_all (visit modules item) items"

definition find_imports_in_file :: "source_file \<Rightarrow> error + string set" where
  "find_imports_in_file f =
     (case f of
        Inl e \<Rightarrow> Inl e
      | Inr node \<Rightarrow> Inr (visit_all {} (walk node)))"

section \<open>The source scanner\<close>

text \<open>
  The file system below the scan root. A \<open>File\<close> is an entry that is not a directory,
  with its name and what reading and parsing it gives (never looked at unless the name
  ends in \<open>.py\<close>). A \<open>Dir\<close> is a directory with its entries in the order
  \<open>os.scandir\<close> lists them. An \<open>Unlistable\<close> is a directory whose listing fails
  (\<open>os.scandir\<close> raises \<open>OSError\<close>), and a \<open>DirLink\<close> is a symbolic link to a
  directory; both come with the entries that are on the disk behind them.
\<close>

datatype tree =
    File string source_file
  | Dir string "tree list"
  | Unlistable string "tree list"
  | DirLink string "tree list"

text \<open>\<open>entry.is_dir()\<close>, which follows links.\<close>

fun is_dir :: "tree \<Rightarrow> bool" where
  "is_dir (File fname f) = False"
| "is_dir (Dir dname entries) = True"
| "is_dir (Unlistable dname entries) = True"
| "is_dir (DirLink dname entries) = True"

text \<open>The list \<open>files\<close> of one step of \<open>os.walk\<close>: the entries that are not directories.\<close>

fun files_of :: "tree list \<Rightarrow> (string \<times> source_file) list" where
  "files_of [] = []"
| "files_of (File fname f # entries) = (fname, f) # files_of entries"
| "files_of (Dir dname sub # entries) = files_of entries"
| "files_of (Unlistable dname sub # entries) = files_of entries"
| "files_of (DirLink dname sub # entries) = files_of entries"

text \<open>
  \<open>os.walk\<close> is called with its defaults \<open>topdown=True\<close>, \<open>onerror=None\<close>,
  \<open>followlinks=False\<close>. \<open>walk_dir\<close> is its walk of one name of \<open>dirs\<close>: the files of
  the directory first, then the walk of each of its subdirectories in turn. The error of
  a listing that fails is swallowed and that directory yields nothing; a link to a
  directory is among \<open>dirs\<close> but is not walked. Of each triple \<open>(root, dirs, files)\<close>
  the model keeps \<open>files\<close>, each name with the file it names (the script joins \<open>root\<close>
  and the name only to open that file).
\<close>

fun walk_dir :: "tree \<Rightarrow> (string \<times> source_file) list list" where
  "walk_dir (File fname f) = []"
| "walk_dir (Dir dname entries) = files_of entries # concat (map walk_dir (filter is_dir entries))"
| "walk_dir (Unlistable dname entries) = []"
| "walk_dir (DirLink dname entries) = []"

text \<open>
  \<open>os.walk(top)\<close>: the listing of \<open>top\<close> itself follows a link, so a \<open>top\<close> that is a
  link to a directory is walked as that directory. A \<open>top\<close> that is not a directory or
  cannot be listed yields nothing.
\<close>

definition os_walk :: "tree \<Rightarrow> (string \<times> source_file) list list" where
  "os_walk top_dir =
     (case top_dir of
        DirLink dname entries \<Rightarrow> walk_dir (Dir dname entries)
      | _ \<Rightarrow> walk_dir top_dir)"

text \<open>
  The inner loop \<open>for file in files\<close>: an error of \<open>find_imports_in_file\<close> ends the
  scan, and the set built so far is lost.
\<close>

fun scan_files :: "string set \<Rightarrow> (string \<times> source_file) list \<Rightarrow> error + string set" where
  "scan_files all_imports [] = Inr all_imports"
| "scan_files all_imports ((file, f) # files) =
     (if endswith file ''.py''
      then (case find_imports_in_file f of
              Inl e \<Rightarrow> Inl e
            | Inr modules \<Rightarrow> scan_files (all_imports \<union> modules) files)
      else scan_files all_imports files)"

text \<open>The outer loop \<open>for root, dirs, files in os.walk(src_dir)\<close>.\<close>

fun scan_steps :: "string set \<Rightarrow> (string \<times> source_file) list list \<Rightarrow> error + string set" where
  "scan_steps all_imports [] = Inr all_imports"
| "scan_steps all_imports (files # steps) =
     (case scan_files all_imports files of
        Inl e \<Rightarrow> Inl e
      | Inr all_imports' \<Rightarrow> scan_steps all_imports' steps)"

definition scan_all_py_files :: "tree \<Rightarrow> error + string set" where
  "scan_all_py_files src_dir = scan_steps {} (os_walk src_dir)"

section \<open>The manifest reader\<close>

text \<open>
  The manifest is what \<open>open\<close> and the iteration over the file give: \<open>Inl OSError\<close>
  when it cannot be opened, and otherwise its lines, each with its line end.
\<close>

type_synonym text_file = "error + string list"

text \<open>The expression \<open>line.split('==')[0].split('>=')[0].split('<=')[0]\<close>.\<close>

definition base_name :: "string \<Rightarrow> string" where
  "base_name line = hd (str_split (hd (str_split (hd (str_split line ''=='')) ''>='')) ''<='')"

fun read_lines :: "string set \<Rightarrow> string list \<Rightarrow> string set" where
  "read_lines pkgs [] = pkgs"
| "read_lines pkgs (line # rest) =
     (let line = strip line
      in if line \<noteq> [] \<and> \<not> startswith line ''#''
         then read_lines (insert (lower (base_name line)) pkgs) rest
         else read_lines pkgs rest)"

definition read_requirements :: "text_file \<Rightarrow> error + string set" where
  "read_requirements reqfile =
     (case reqfile of
        Inl e \<Rightarrow> Inl e
      | Inr lines \<Rightarrow> Inr (read_lines {} lines))"

section \<open>The reporter\<close>

text \<open>
  The script's main part. A run is modelled by the lines it has printed, each a label
  and the sorted list after it, and by the error that ended it, if one did. \<open>sorted\<close>
  of a set of strings is \<open>sorted_list_of_set\<close> in the order of the code points.
\<close>

definition main :: "tree \<Rightarrow> text_file \<Rightarrow> (string \<times> string list) list \<times> error option" where
  "main source_dir reqfile =
     (case scan_all_py_files source_dir of
        Inl e \<Rightarrow> ([], Some e)
      | Inr imports \<Rightarrow>
          (let line1 = (''Imports found in codebase:'', sorted_list_of_set imports)
           in case read_requirements reqfile of
                Inl e \<Rightarrow> ([line1], Some e)
              | Inr reqs \<Rightarrow>
                  ([line1,
                    (''Packages in requirements.txt:'', sorted_list_of_set reqs),
                    (''Possibly missing in requirements.txt (used in code, not listed):'',
                     sorted_list_of_set (imports - reqs)),
                    (''Possibly unused in codebase (listed, but not imported directly):'',
                     sorted_list_of_set (reqs - imports))],
                   None)))"

section \<open>Notions used in the statements\<close>

text \<open>
  All nodes of a syntax tree, the root first: the statements and expressions "in the
  file", wherever they are nested.
\<close>

fun subnodes :: "node \<Rightarrow> node list" where
  "subnodes (Import names) = Import names # map AliasNode names"
| "subnodes (ImportFrom module names level) = ImportFrom module names level # map AliasNode names"
| "subnodes (AliasNode a) = [AliasNode a]"
| "subnodes (Node children) = Node children # concat (map subnodes children)"

text \<open>The first path segment of a dotted name: what stands before the first \<open>.\<close>.\<close>

definition root_name :: "string \<Rightarrow> string" where
  "root_name dotted = takeWhile (\<lambda>c. c \<noteq> CHR ''.'') dotted"

text \<open>The part of \<open>s\<close> before the first occurrence of \<open>sep\<close>, all of \<open>s\<close> if there is none.\<close>

fun first_piece :: "string \<Rightarrow> string \<Rightarrow> string" where
  "first_piece sep [] = []"
| "first_piece sep (c # cs) = (if startswith (c # cs) sep then [] else c # first_piece sep cs)"

text \<open>
  An import statement is an \<open>Import\<close> or an \<open>ImportFrom\<close>; a relative import with no
  named module, as \<open>from . import x\<close>, is an \<open>ImportFrom\<close> whose module is \<open>None\<close>.
\<close>

fun is_import :: "node \<Rightarrow> bool" where
  "is_import (Import names) = True"
| "is_import (ImportFrom module names level) = True"
| "is_import n = False"

fun is_unnamed_relative :: "node \<Rightarrow> bool" where
  "is_unnamed_relative (ImportFrom None names level) = True"
| "is_unnamed_relative n = False"

text \<open>
  The spec's truncation of a manifest line: the part before the earliest occurrence of
  any of the three markers \<open>==\<close>, \<open>>=\<close>, \<open><=\<close>, the whole string if none occurs.
\<close>

fun truncate_at_marker :: "string \<Rightarrow> string" where
  "truncate_at_marker [] = []"
| "truncate_at_marker (c # cs) =
     (if startswith (c # cs) ''=='' \<or> startswith (c # cs) ''>='' \<or> startswith (c # cs) ''<=''
      then [] else c # truncate_at_marker cs)"

text \<open>
  The spec's skipped lines: empty after trimming, or the first character that is not
  white space is \<open>#\<close>.
\<close>

definition skipped :: "string \<Rightarrow> bool" where
  "skipped line =
     (strip line = [] \<or>
      (case dropWhile isspace line of [] \<Rightarrow> False | c # cs \<Rightarrow> c = CHR ''#''))"

text \<open>\<open>sub in s\<close>: the string \<open>sub\<close> occurs in \<open>s\<close>.\<close>

fun contains :: "string \<Rightarrow> string \<Rightarrow> bool" where
  "contains [] sub = (sub = [])"
| "contains (c # cs) sub = (startswith (c # cs) sub \<or> contains cs sub)"

text \<open>
  The files below a directory, at any depth, each with its name: the files a tree
  "contains", whether the walk can reach them or not.
\<close>

fun files_under :: "tree \<Rightarrow> (string \<times> source_file) list" where
  "files_under (File fname f) = [(fname, f)]"
| "files_under (Dir dname entries) = concat (map files_under entries)"
| "files_under (Unlistable dname entries) = concat (map files_under entries)"
| "files_under (DirLink dname entries) = concat (map files_under entries)"

text \<open>
  The files of an entry that lie in directories the walk lists: those with no directory
  that cannot be listed and no link to a directory on the way down.
\<close>

fun listed :: "tree \<Rightarrow> (string \<times> source_file) list" where
  "listed (File fname f) = [(fname, f)]"
| "listed (Dir dname entries) = concat (map listed entries)"
| "listed (Unlistable dname entries) = []"
| "listed (DirLink dname entries) = []"

text \<open>The files of a listing whose names end in \<open>.py\<close>, in the order of the listing.\<close>

definition py_sources :: "(string \<times> source_file) list \<Rightarrow> source_file list" where
  "py_sources files = map snd (filter (\<lambda>(file, f). endswith file ''.py'') files)"

text \<open>The error of the first file of a list that cannot be read or parsed.\<close>

fun first_error :: "source_file list \<Rightarrow> error option" where
  "first_error [] = None"
| "first_error (Inl e # fs) = Some e"
| "first_error (Inr ast # fs) = first_error fs"

text \<open>The names a valid file imports; a file that fails has none.\<close>

definition imports_of :: "source_file \<Rightarrow> string set" where
  "imports_of f =
     (case f of Inl e \<Rightarrow> {} | Inr ast \<Rightarrow> (\<Union>item \<in> set (subnodes ast). visit {} item))"

text \<open>
  The module names written in one import statement: each \<open>X\<close> of \<open>import X\<close>, and the
  \<open>X\<close> of \<open>from X import Y\<close>.
\<close>

fun imported_names :: "node \<Rightarrow> string list" where
  "imported_names (Import names) = map name names"
| "imported_names (ImportFrom module names level) =
     (case module of None \<Rightarrow> [] | Some m \<Rightarrow> if m \<noteq> [] then [m] else [])"
| "imported_names n = []"

text \<open>
  The same tree listed in another order: \<open>os.scandir\<close> fixes no order, so the entries
  of every directory may come permuted, at every depth.
\<close>

inductive reordered :: "tree \<Rightarrow> tree \<Rightarrow> bool" where
  reordered_File: "reordered (File fname f) (File fname f)"
| reordered_Dir: "list_all2 reordered entries entries' \<Longrightarrow> mset entries'' = mset entries' \<Longrightarrow>
     reordered (Dir dname entries) (Dir dname entries'')"
| reordered_Unlistable: "list_all2 reordered entries entries' \<Longrightarrow> mset entries'' = mset entries' \<Longrightarrow>
     reordered (Unlistable dname entries) (Unlistable dname entries'')"
| reordered_DirLink: "list_all2 reordered entries entries' \<Longrightarrow> mset entries'' = mset entries' \<Longrightarrow>
     reordered (DirLink dname entries) (DirLink dname entries'')"

text \<open>
  A syntax tree with every relative import that names no module taken out, at every
  depth.
\<close>

fun without_unnamed_relative :: "node \<Rightarrow> node" where
  "without_unnamed_relative (Node children) =
     Node (map without_unnamed_relative (filter (\<lambda>n. \<not> is_unnamed_relative n) children))"
| "without_unnamed_relative n = n"

text \<open>
  What the parser promises of the module names it returns: each is a dotted name, made
  of identifiers and \<open>.\<close> only. A character of an identifier is an ASCII letter, a digit,
  the underscore, or a code point from 128 on (the parser admits only some of these); so
  it is no \<open>.\<close>, no blank and no character of a version specifier. \<open>parsed\<close> says this
  of one syntax tree, \<open>parsed_sources\<close> of every \<open>.py\<close> file the walk lists that has one.
\<close>

definition identifier_char :: "char \<Rightarrow> bool" where
  "identifier_char c =
     (let n = (of_char c :: nat)
      in (48 \<le> n \<and> n \<le> 57) \<or> (65 \<le> n \<and> n \<le> 90) \<or> n = 95 \<or>
         (97 \<le> n \<and> n \<le> 122) \<or> 128 \<le> n)"

definition dotted_name :: "string \<Rightarrow> bool" where
  "dotted_name s = list_all (\<lambda>c. identifier_char c \<or> c = CHR ''.'') s"

definition parsed :: "node \<Rightarrow> bool" where
  "parsed ast = list_all (\<lambda>item. list_all dotted_name (imported_names item)) (subnodes ast)"

definition parsed_sources :: "tree \<Rightarrow> bool" where
  "parsed_sources src_dir =
     list_all (\<lambda>f. case f of Inl e \<Rightarrow> True | Inr ast \<Rightarrow> parsed ast)
       (py_sources (concat (os_walk src_dir)))"

section \<open>The walk reaches every node\<close>

lemma subnodes_children:
  "mset (subnodes n) = {#n#} + mset (concat (map subnodes (iter_child_nodes n)))"
  by (cases n) (simp_all add: comp_def)

lemma mset_walk_queue: "mset (walk_queue q) = mset (concat (map subnodes q))"
proof (induction q rule: walk_queue.induct)
  case 1
  show ?case by simp
next
  case (2 n todo)
  then show ?case by (simp add: subnodes_children)
qed

lemma set_walk: "set (walk n) = set (subnodes n)"
proof -
  have "mset (walk n) = mset (subnodes n)"
    by (simp only: walk_def mset_walk_queue) simp
  then show ?thesis by (rule mset_eq_setD)
qed

section \<open>The first piece of a split\<close>

text \<open>A split has at least one piece, so \<open>[0]\<close> never raises \<open>IndexError\<close>.\<close>

lemma split_from_not_Nil: "split_from sep acc s \<noteq> []"
  by (induction sep acc s rule: split_from.induct) auto

lemma hd_split_from: "sep \<noteq> [] \<Longrightarrow> hd (split_from sep acc s) = rev acc @ first_piece sep s"
  by (induction sep acc s rule: split_from.induct) auto

lemma hd_str_split: "sep \<noteq> [] \<Longrightarrow> hd (str_split s sep) = first_piece sep s"
  by (simp add: str_split_def hd_split_from)

lemma hd_str_split_dot: "hd (str_split s ''.'') = root_name s"
proof -
  have "first_piece [d] s = takeWhile (\<lambda>c. c \<noteq> d) s" for d
    by (induction s) auto
  then show ?thesis by (simp add: hd_str_split root_name_def)
qed

section \<open>What the import extractor returns\<close>

lemma add_names_eq: "add_names M names = M \<union> (\<lambda>a. root_name (name a)) ` set names"
  by (induction names arbitrary: M) (auto simp: hd_str_split_dot)

lemma visit_eq: "visit M item = M \<union> visit {} item"
  by (cases item) (auto simp: add_names_eq [of M] add_names_eq [of "{}"] split: option.splits)

lemma visit_all_eq: "visit_all M items = M \<union> (\<Union>item \<in> set items. visit {} item)"
proof (induction items arbitrary: M)
  case Nil
  show ?case by simp
next
  case (Cons item items)
  show ?case using visit_eq [of M item] by (auto simp: Cons.IH)
qed

lemma find_imports_eq:
  "find_imports_in_file (Inr ast) = Inr (\<Union>item \<in> set (subnodes ast). visit {} item)"
  by (simp add: find_imports_in_file_def visit_all_eq set_walk)

lemma visit_AliasNode_image: "(\<Union>item \<in> AliasNode ` A. visit {} item) = {}"
  by auto

lemma visit_imported_names: "visit {} item = root_name ` set (imported_names item)"
  by (cases item) (auto simp: add_names_eq hd_str_split_dot split: option.splits)

lemma find_imports_names:
  "find_imports_in_file (Inr ast) =
     Inr (root_name ` (\<Union>item \<in> set (subnodes ast). set (imported_names item)))"
  by (simp add: find_imports_eq visit_imported_names image_UN)

lemma find_imports_body:
  "find_imports_in_file (Inr (Node (pre @ stmt # post))) =
   Inr ((\<Union>item \<in> set (subnodes stmt). visit {} item) \<union>
        (\<Union>item \<in> set (subnodes (Node (pre @ post))). visit {} item))"
  by (auto simp: find_imports_eq)

text \<open>
  Claim C3. A direct import statement \<open>import X[.sub][ as Y]\<close> anywhere in a valid file
  puts the first path segment of each \<open>X\<close> into the result, whatever the alias \<open>Y\<close>. A
  direct import at the top of the file adds those segments to what the rest of the file
  gives and nothing else.
\<close>

theorem import_adds_root_name:
  assumes "Import names \<in> set (subnodes ast)" and "a \<in> set names"
  shows "(\<exists>S. find_imports_in_file (Inr ast) = Inr S \<and> root_name (name a) \<in> S) \<and>
         (\<exists>S0. find_imports_in_file (Inr (Node (pre @ post))) = Inr S0 \<and>
               find_imports_in_file (Inr (Node (pre @ Import names # post))) =
                 Inr (S0 \<union> (\<lambda>a. root_name (name a)) ` set names))"
proof -
  have "root_name (name a) \<in> visit {} (Import names)"
    using assms(2) by (simp add: add_names_eq)
  with assms(1) have "root_name (name a) \<in> (\<Union>item \<in> set (subnodes ast). visit {} item)"
    by blast
  moreover have "(\<Union>item \<in> set (subnodes (Import names)). visit {} item)
      = (\<lambda>a. root_name (name a)) ` set names"
    by (simp add: add_names_eq)
  ultimately show ?thesis
    by (simp add: find_imports_eq [of ast] find_imports_body
        find_imports_eq [of "Node (pre @ post)"] Un_commute)
qed

text \<open>The file \<open>import os\<close>, \<open>import sys as s\<close> yields \<open>os\<close> and \<open>sys\<close>.\<close>

theorem import_adds_root_name_witness:
  "Import [Alias ''sys'' (Some ''s'')]
     \<in> set (subnodes (Node [Import [Alias ''os'' None], Import [Alias ''sys'' (Some ''s'')]])) \<and>
   find_imports_in_file (Inr (Node [Import [Alias ''os'' None], Import [Alias ''sys'' (Some ''s'')]]))
     = Inr {''os'', ''sys''}"
  using import_adds_root_name [of "[Alias ''sys'' (Some ''s'')]"
      "Node [Import [Alias ''os'' None], Import [Alias ''sys'' (Some ''s'')]]"
      "Alias ''sys'' (Some ''s'')" "[Import [Alias ''os'' None]]" "[]"]
  by (simp add: root_name_def find_imports_in_file_def walk_def str_split_def insert_commute)

text \<open>
  Claim C2. A statement \<open>from X[.sub] import Y\<close> with a named module, anywhere in a valid
  file, puts the first path segment of \<open>X\<close> into the result. At the top of the file it
  adds exactly that one name to what the rest of the file gives, so the member names
  \<open>Y\<close> add nothing. The whole result is the set of the first segments of the module
  names of the file's import statements; \<open>imported_names\<close> holds no member name.
\<close>

theorem import_from_adds_root_name:
  assumes "ImportFrom (Some m) names level \<in> set (subnodes ast)" and "m \<noteq> []"
  shows "(\<exists>S. find_imports_in_file (Inr ast) = Inr S \<and> root_name m \<in> S) \<and>
         (\<exists>S0. find_imports_in_file (Inr (Node (pre @ post))) = Inr S0 \<and>
               find_imports_in_file (Inr (Node (pre @ ImportFrom (Some m) names level # post))) =
                 Inr (insert (root_name m) S0)) \<and>
         find_imports_in_file (Inr ast) =
           Inr (root_name ` (\<Union>item \<in> set (subnodes ast). set (imported_names item)))"
proof -
  have "root_name m \<in> visit {} (ImportFrom (Some m) names level)"
    using assms(2) by (simp add: hd_str_split_dot)
  with assms(1) have "root_name m \<in> (\<Union>item \<in> set (subnodes ast). visit {} item)"
    by blast
  moreover have "(\<Union>item \<in> set (subnodes (ImportFrom (Some m) names level)). visit {} item)
      = {root_name m}"
    using assms(2) by (simp add: hd_str_split_dot visit_AliasNode_image)
  ultimately have "(\<exists>S. find_imports_in_file (Inr ast) = Inr S \<and> root_name m \<in> S) \<and>
         (\<exists>S0. find_imports_in_file (Inr (Node (pre @ post))) = Inr S0 \<and>
               find_imports_in_file (Inr (Node (pre @ ImportFrom (Some m) names level # post))) =
                 Inr (insert (root_name m) S0))"
    by (simp add: find_imports_eq [of ast] find_imports_body
        find_imports_eq [of "Node (pre @ post)"])
  then show ?thesis using find_imports_names [of ast] by blast
qed

text \<open>The file \<open>from foo.bar import baz\<close> yields \<open>foo\<close> alone.\<close>

theorem import_from_adds_root_name_witness:
  "ImportFrom (Some ''foo.bar'') [Alias ''baz'' None] 0
     \<in> set (subnodes (Node [ImportFrom (Some ''foo.bar'') [Alias ''baz'' None] 0])) \<and>
   find_imports_in_file (Inr (Node [ImportFrom (Some ''foo.bar'') [Alias ''baz'' None] 0]))
     = Inr {''foo''}"
  using import_from_adds_root_name [of "''foo.bar''" "[Alias ''baz'' None]" 0
      "Node [ImportFrom (Some ''foo.bar'') [Alias ''baz'' None] 0]" "[]" "[]"]
  by (simp add: root_name_def find_imports_in_file_def walk_def str_split_def)

lemma visit_unnamed_relative:
  "is_unnamed_relative n \<Longrightarrow> (\<Union>item \<in> set (subnodes n). visit {} item) = {}"
  by (induction n rule: is_unnamed_relative.induct) (simp_all add: visit_AliasNode_image)

lemma visit_without_unnamed_relative:
  "(\<Union>item \<in> set (subnodes (without_unnamed_relative ast)). visit {} item) =
   (\<Union>item \<in> set (subnodes ast). visit {} item)"
proof (induction ast)
  case (Node children)
  have "(\<Union>item \<in> set (subnodes (without_unnamed_relative (Node children))). visit {} item)
      = (\<Union>c \<in> {c \<in> set children. \<not> is_unnamed_relative c}.
           \<Union>item \<in> set (subnodes (without_unnamed_relative c)). visit {} item)"
    by auto
  also have "\<dots> = (\<Union>c \<in> {c \<in> set children. \<not> is_unnamed_relative c}.
           \<Union>item \<in> set (subnodes c). visit {} item)"
    using Node.IH by simp
  also have "\<dots> = (\<Union>c \<in> set children. \<Union>item \<in> set (subnodes c). visit {} item)"
    using visit_unnamed_relative by blast
  also have "\<dots> = (\<Union>item \<in> set (subnodes (Node children)). visit {} item)"
    by auto
  finally show ?case .
qed simp_all

lemma no_unnamed_relative_left:
  "n \<in> set (subnodes (without_unnamed_relative (Node children))) \<Longrightarrow> \<not> is_unnamed_relative n"
proof (induction "Node children" arbitrary: n children)
  case (Node children)
  from Node.prems consider "n = without_unnamed_relative (Node children)"
    | c where "c \<in> set children" "\<not> is_unnamed_relative c"
        "n \<in> set (subnodes (without_unnamed_relative c))"
    by auto
  then show ?case
  proof cases
    case 1
    then show ?thesis by simp
  next
    case 2
    show ?thesis
    proof (cases c)
      case (Node cs)
      with 2 Node.hyps show ?thesis by blast
    next
      case (Import names)
      with 2 show ?thesis by auto
    next
      case (ImportFrom module names level)
      with 2 show ?thesis by (cases module) auto
    next
      case (AliasNode a)
      with 2 show ?thesis by auto
    qed
  qed
qed

text \<open>
  Claim C4. A relative import with no named module adds nothing, wherever it stands in a
  valid file: the file with all such statements taken out, at every depth, gives the same
  result as the file itself. In particular the file with one such statement at the top
  and the file without it give the same result, and a file whose import statements are
  all of this kind gives the empty set.
\<close>

theorem unnamed_relative_import_adds_nothing:
  "find_imports_in_file (Inr (without_unnamed_relative ast)) = find_imports_in_file (Inr ast) \<and>
   (\<forall>n \<in> set (subnodes (without_unnamed_relative (Node children))). \<not> is_unnamed_relative n) \<and>
   (\<exists>S0. find_imports_in_file (Inr (Node (pre @ post))) = Inr S0 \<and>
         find_imports_in_file (Inr (Node (pre @ ImportFrom None names level # post))) = Inr S0) \<and>
   ((\<forall>n \<in> set (subnodes ast). is_import n \<longrightarrow> is_unnamed_relative n) \<longrightarrow>
      find_imports_in_file (Inr ast) = Inr {})"
proof -
  have 0: "find_imports_in_file (Inr (without_unnamed_relative ast)) = find_imports_in_file (Inr ast)"
    by (simp only: find_imports_eq visit_without_unnamed_relative)
  have "(\<Union>item \<in> set (subnodes (ImportFrom None names level)). visit {} item) = {}"
    by (simp add: visit_AliasNode_image)
  then have 1: "find_imports_in_file (Inr (Node (pre @ ImportFrom None names level # post)))
      = find_imports_in_file (Inr (Node (pre @ post)))"
    by (simp add: find_imports_body find_imports_eq [of "Node (pre @ post)"])
  have "visit {} n = {}" if "is_import n \<longrightarrow> is_unnamed_relative n" for n
    using that by (cases n) (auto split: option.splits)
  then have 2: "(\<forall>n \<in> set (subnodes ast). is_import n \<longrightarrow> is_unnamed_relative n) \<longrightarrow>
      find_imports_in_file (Inr ast) = Inr {}"
    by (simp add: find_imports_eq)
  from 1 have 3: "\<exists>S0. find_imports_in_file (Inr (Node (pre @ post))) = Inr S0 \<and>
         find_imports_in_file (Inr (Node (pre @ ImportFrom None names level # post))) = Inr S0"
    by (simp add: find_imports_eq [of "Node (pre @ post)"])
  from 0 2 3 show ?thesis using no_unnamed_relative_left [of _ children] by blast
qed


text \<open>
  The file \<open>from . import x\<close> yields the empty set, and a file with \<open>import os\<close> and
  a \<open>from . import x\<close> inside a function yields \<open>os\<close> alone.
\<close>

theorem unnamed_relative_import_adds_nothing_witness:
  "is_import (ImportFrom None [Alias ''x'' None] 1) \<and>
   is_unnamed_relative (ImportFrom None [Alias ''x'' None] 1) \<and>
   find_imports_in_file (Inr (Node [ImportFrom None [Alias ''x'' None] 1])) = Inr {} \<and>
   without_unnamed_relative
     (Node [Import [Alias ''os'' None], Node [ImportFrom None [Alias ''x'' None] 1]])
     = Node [Import [Alias ''os'' None], Node []] \<and>
   find_imports_in_file
     (Inr (Node [Import [Alias ''os'' None], Node [ImportFrom None [Alias ''x'' None] 1]]))
     = Inr {''os''}"
proof -
  have 1: "without_unnamed_relative
     (Node [Import [Alias ''os'' None], Node [ImportFrom None [Alias ''x'' None] 1]])
     = Node [Import [Alias ''os'' None], Node []]"
    by simp
  have 2: "find_imports_in_file (Inr (Node [Import [Alias ''os'' None], Node []])) = Inr {''os''}"
    by code_simp
  have 3: "find_imports_in_file (Inr (Node [ImportFrom None [Alias ''x'' None] 1])) = Inr {}"
    using unnamed_relative_import_adds_nothing [of "Node [ImportFrom None [Alias ''x'' None] 1]"
      "[]" "[]" "[]" "[Alias ''x'' None]" 1]
    by simp
  show ?thesis
    using unnamed_relative_import_adds_nothing
      [of "Node [Import [Alias ''os'' None], Node [ImportFrom None [Alias ''x'' None] 1]]"
        "[]" "[]" "[]" "[Alias ''x'' None]" 1] 1 2 3
    by simp
qed

section \<open>What the manifest reader returns\<close>

lemma strip_Cons: 
  assumes "dropWhile isspace line = c # cs" 
  shows "strip line = c # rev (dropWhile isspace (rev cs))"
proof -
  have "\<not> isspace c" using assms by (metis hd_dropWhile list.sel(1) list.distinct(1))
  then have "dropWhile isspace (rev cs @ [c]) = dropWhile isspace (rev cs) @ [c]"
    by (simp add: dropWhile_append3)
  with assms show ?thesis by (simp add: strip_def)
qed

lemma strip_Nil_iff: "strip line = [] \<longleftrightarrow> dropWhile isspace line = []"
proof (cases "dropWhile isspace line")
  case Nil
  show ?thesis by (simp only: strip_def Nil) simp
next
  case (Cons c cs)
  then show ?thesis by (simp add: strip_Cons)
qed

lemma skipped_iff: "skipped line \<longleftrightarrow> \<not> (strip line \<noteq> [] \<and> \<not> startswith (strip line) ''#'')"
proof (cases "dropWhile isspace line")
  case Nil
  show ?thesis by (simp only: skipped_def strip_Nil_iff Nil) simp
next
  case (Cons c cs)
  then show ?thesis by (simp add: skipped_def strip_Cons)
qed

lemma read_lines_eq:
  "read_lines pkgs lines =
     pkgs \<union> (\<lambda>l. lower (base_name (strip l))) ` {l \<in> set lines. \<not> skipped l}"
proof (induction lines arbitrary: pkgs)
  case Nil
  show ?case by simp
next
  case (Cons l lines)
  show ?case using skipped_iff [of l] by (auto simp: Cons.IH Let_def)
qed

lemma read_requirements_eq:
  "read_requirements (Inr lines) =
     Inr ((\<lambda>l. lower (base_name (strip l))) ` {l \<in> set lines. \<not> skipped l})"
  by (simp add: read_requirements_def read_lines_eq)

lemma base_name_eq:
  "base_name s = first_piece ''<='' (first_piece ''>='' (first_piece ''=='' s))"
  by (simp add: base_name_def hd_str_split)

lemma startswith_first_piece: "startswith (first_piece sep s) p \<Longrightarrow> startswith s p"
proof (induction s arbitrary: p)
  case Nil
  then show ?case by simp
next
  case (Cons c cs)
  then show ?case by (cases p) (auto split: if_splits)
qed

lemma base_name_Cons:
  assumes "\<not> startswith (c # cs) ''==''" "\<not> startswith (c # cs) ''>=''" "\<not> startswith (c # cs) ''<=''"
  shows "base_name (c # cs) = c # base_name cs"
proof -
  have 1: "first_piece ''=='' (c # cs) = c # first_piece ''=='' cs"
    using assms(1) by simp
  have "\<not> startswith (c # first_piece ''=='' cs) ''>=''"
    using assms(2) startswith_first_piece [of "''==''" cs "''=''"] by auto
  then have 2: "first_piece ''>='' (c # first_piece ''=='' cs) = c # first_piece ''>='' (first_piece ''=='' cs)"
    by simp
  have "\<not> startswith (c # first_piece ''>='' (first_piece ''=='' cs)) ''<=''"
    using assms(3) startswith_first_piece [of "''>=''" "first_piece ''=='' cs" "''=''"]
      startswith_first_piece [of "''==''" cs "''=''"] by auto
  then show ?thesis by (simp only: base_name_eq 1 2) simp
qed

lemma base_name_marker:
  assumes "startswith (c # cs) ''=='' \<or> startswith (c # cs) ''>='' \<or> startswith (c # cs) ''<=''"
  shows "base_name (c # cs) =
     (if startswith (c # cs) ''>=='' \<or> startswith (c # cs) ''<=='' then [c] else [])"
proof (cases cs)
  case Nil
  with assms show ?thesis by simp
next
  case (Cons d ds)
  with assms show ?thesis by (cases ds) (auto simp: base_name_eq)
qed

lemma base_name_truncate:
  "base_name s =
     (let t = truncate_at_marker s; r = drop (length t) s
      in if startswith r ''>=='' \<or> startswith r ''<=='' then t @ [hd r] else t)"
proof (induction s)
  case Nil
  show ?case by (simp add: base_name_eq)
next
  case (Cons c cs)
  show ?case
  proof (cases "startswith (c # cs) ''=='' \<or> startswith (c # cs) ''>='' \<or> startswith (c # cs) ''<=''")
    case False
    then have "base_name (c # cs) = c # base_name cs"
      by (intro base_name_Cons) simp_all
    moreover from False have "truncate_at_marker (c # cs) = c # truncate_at_marker cs"
      by (simp only: truncate_at_marker.simps if_False)
    ultimately show ?thesis using Cons.IH by (simp only: Let_def) simp
  next
    case True
    then have "truncate_at_marker (c # cs) = []"
      by (simp only: truncate_at_marker.simps if_True)
    then show ?thesis using base_name_marker [OF True] by (simp only: Let_def) simp
  qed
qed

lemma lower_char_fixed:
  assumes "(of_char d :: nat) < 65"
  shows "lower_char c = d \<longleftrightarrow> c = d"
proof
  assume "c = d"
  with assms show "lower_char c = d" by (auto simp: lower_char_def Let_def)
next
  assume *: "lower_char c = d"
  show "c = d"
  proof (rule ccontr)
    assume "c \<noteq> d"
    with * have up: "(65 \<le> (of_char c :: nat) \<and> (of_char c :: nat) \<le> 90) \<or>
        (192 \<le> (of_char c :: nat) \<and> (of_char c :: nat) \<le> 222 \<and> (of_char c :: nat) \<noteq> 215)"
      and d: "d = char_of ((of_char c :: nat) + 32)"
      by (auto simp: lower_char_def Let_def split: if_splits)
    from d have "(of_char d :: nat) = ((of_char c :: nat) + 32) mod 256"
      by simp
    with up assms show False by auto
  qed
qed

lemma startswith_lower:
  assumes "\<forall>d \<in> set p. (of_char d :: nat) < 65"
  shows "startswith (lower s) p \<longleftrightarrow> startswith s p"
  using assms
proof (induction s p rule: startswith.induct)
  case (3 c cs p ps)
  then show ?case by (simp add: lower_def lower_char_fixed)
qed (simp_all add: lower_def)

lemma contains_lower:
  assumes "\<forall>d \<in> set p. (of_char d :: nat) < 65"
  shows "contains (lower s) p \<longleftrightarrow> contains s p"
proof (induction s)
  case Nil
  show ?case by (simp add: lower_def)
next
  case (Cons c cs)
  have "startswith (lower (c # cs)) p \<longleftrightarrow> startswith (c # cs) p"
    using assms by (rule startswith_lower)
  with Cons show ?case by (simp add: lower_def)
qed

lemma startswith_Cons_first_piece:
  "startswith (c # first_piece sep cs) p \<Longrightarrow> startswith (c # cs) p"
  using startswith_first_piece [of sep cs "tl p"] by (cases p) auto

lemma not_contains_first_piece: "sep \<noteq> [] \<Longrightarrow> \<not> contains (first_piece sep s) sep"
proof (induction s)
  case Nil
  then show ?case by simp
next
  case (Cons c cs)
  then show ?case using startswith_Cons_first_piece [of c sep cs sep] by auto
qed

lemma contains_first_piece: "contains (first_piece sep s) p \<Longrightarrow> contains s p"
proof (induction s)
  case Nil
  then show ?case by simp
next
  case (Cons c cs)
  then show ?case using startswith_Cons_first_piece [of c sep cs p]
    by (cases p) (auto split: if_splits)
qed

lemma base_name_no_marker:
  "\<not> contains (base_name s) ''=='' \<and> \<not> contains (base_name s) ''>='' \<and> \<not> contains (base_name s) ''<=''"
proof -
  have "\<not> contains (first_piece ''=='' s) ''==''"
    by (rule not_contains_first_piece) simp
  then have 1: "\<not> contains (base_name s) ''==''"
    unfolding base_name_eq using contains_first_piece by blast
  have "\<not> contains (first_piece ''>='' (first_piece ''=='' s)) ''>=''"
    by (rule not_contains_first_piece) simp
  then have 2: "\<not> contains (base_name s) ''>=''"
    unfolding base_name_eq using contains_first_piece by blast
  have 3: "\<not> contains (base_name s) ''<=''"
    unfolding base_name_eq by (rule not_contains_first_piece) simp
  from 1 2 3 show ?thesis by simp
qed

lemma declared_no_marker:
  assumes "read_requirements m = Inr D" and "x \<in> D"
  shows "\<not> contains x ''=='' \<and> \<not> contains x ''>='' \<and> \<not> contains x ''<=''"
proof -
  from assms(1) obtain lines where "m = Inr lines"
    by (cases m) (auto simp: read_requirements_def)
  with assms obtain l where "x = lower (base_name (strip l))"
    by (auto simp: read_requirements_eq)
  then show ?thesis using base_name_no_marker [of "strip l"] by (simp add: contains_lower)
qed

text \<open>
  Claim C1, as the code has it. A manifest line that is not skipped adds the lower-cased
  \<open>base_name\<close> of the trimmed line: the line cut at the first \<open>==\<close>, the rest cut at
  its first \<open>>=\<close>, and that cut at its first \<open><=\<close>. This is the part before the
  earliest of the three markers, except when that earliest marker is a \<open>>=\<close> or
  \<open><=\<close> with a second \<open>=\<close> right after it: then the \<open>>\<close> or \<open><\<close> stays in the name.
\<close>

theorem manifest_line_adds_base_name:
  assumes "line \<in> set lines" and "\<not> skipped line"
  shows "(\<exists>pkgs. read_requirements (Inr lines) = Inr pkgs \<and> lower (base_name (strip line)) \<in> pkgs) \<and>
         base_name (strip line) =
           (let t = truncate_at_marker (strip line); r = drop (length t) (strip line)
            in if startswith r ''>=='' \<or> startswith r ''<=='' then t @ [hd r] else t)"
proof -
  have "lower (base_name (strip line)) \<in> (\<lambda>l. lower (base_name (strip l))) ` {l \<in> set lines. \<not> skipped l}"
    using assms by blast
  then have "\<exists>pkgs. read_requirements (Inr lines) = Inr pkgs \<and> lower (base_name (strip line)) \<in> pkgs"
    by (simp add: read_requirements_eq)
  then show ?thesis using base_name_truncate [of "strip line"] by blast
qed

text \<open>
  The lines \<open>Requests==2.31.0\<close> and \<open>numpy>=1.20\<close> give \<open>requests\<close> and \<open>numpy\<close>;
  here the chain of splits and the truncation at the earliest marker agree.
\<close>

theorem manifest_line_adds_base_name_witness:
  "\<not> skipped ''Requests==2.31.0\<newline>'' \<and>
   read_requirements (Inr [''Requests==2.31.0\<newline>'', ''numpy>=1.20\<newline>'']) = Inr {''requests'', ''numpy''} \<and>
   lower (base_name (strip ''Requests==2.31.0\<newline>'')) = ''requests'' \<and>
   lower (truncate_at_marker (strip ''Requests==2.31.0\<newline>'')) = ''requests''"
proof -
  have 1: "\<not> skipped ''Requests==2.31.0\<newline>''" by code_simp
  have 2: "read_requirements (Inr [''Requests==2.31.0\<newline>'', ''numpy>=1.20\<newline>'']) = Inr {''requests'', ''numpy''}"
    by code_simp
  have 3: "lower (base_name (strip ''Requests==2.31.0\<newline>'')) = ''requests''" by code_simp
  have 4: "strip ''Requests==2.31.0\<newline>'' = ''Requests==2.31.0''" by code_simp
  have 5: "lower ''Requests'' = ''requests''" by code_simp
  show ?thesis
    using manifest_line_adds_base_name [of "''Requests==2.31.0\<newline>''"
        "[''Requests==2.31.0\<newline>'', ''numpy>=1.20\<newline>'']", OF _ 1] 1 2 3
    by (simp add: 4 5)
qed

text \<open>
  The line \<open>pkg>==1.0\<close> is not skipped and its earliest marker is the \<open>>=\<close> after
  \<open>pkg\<close>, yet the reader returns \<open>pkg>\<close>: the split at \<open>==\<close> comes first and cuts
  the \<open>>=\<close> in two.
\<close>

theorem manifest_line_overlap_counterexample:
  "\<not> skipped ''pkg>==1.0\<newline>'' \<and>
   lower (truncate_at_marker (strip ''pkg>==1.0\<newline>'')) = ''pkg'' \<and>
   read_requirements (Inr [''pkg>==1.0\<newline>'']) = Inr {''pkg>''} \<and>
   ''pkg'' \<notin> {''pkg>''}"
  by code_simp

text \<open>
  Claim C8. A line that is empty after trimming, or whose first character that is not
  white space is \<open>#\<close>, adds nothing: the manifest with the line and the manifest without
  it give the same set, and a manifest of such lines only gives the empty set.
\<close>

theorem skipped_lines_add_nothing:
  "(skipped line \<longrightarrow>
      read_requirements (Inr (pre @ line # post)) = read_requirements (Inr (pre @ post))) \<and>
   ((\<forall>line \<in> set lines. skipped line) \<longrightarrow> read_requirements (Inr lines) = Inr {})"
  by (auto simp: read_requirements_eq)

text \<open>A comment, an empty line and an indented comment: nothing is declared.\<close>

theorem skipped_lines_add_nothing_witness:
  "skipped ''# comment\<newline>'' \<and> skipped ''\<newline>'' \<and> skipped ''   # x'' \<and>
   read_requirements (Inr [''# comment\<newline>'', ''\<newline>'', ''   # x'']) = Inr {} \<and>
   read_requirements (Inr [''numpy>=1.20\<newline>'', ''# comment\<newline>''])
     = read_requirements (Inr [''numpy>=1.20\<newline>''])"
proof -
  have 1: "skipped ''# comment\<newline>''" "skipped ''\<newline>''" "skipped ''   # x''" by code_simp+
  show ?thesis
    using skipped_lines_add_nothing [of "''# comment\<newline>''" "[''numpy>=1.20\<newline>'']" "[]"
        "[''# comment\<newline>'', ''\<newline>'', ''   # x'']"] 1
    by simp
qed

text \<open>
  Claim C10, as the code has it. A line whose trimmed text begins with \<open>==\<close>, or with
  \<open>>=\<close> or \<open><=\<close> and no further \<open>=\<close> right after, puts the empty string into the
  declared set.
\<close>

theorem leading_marker_adds_empty_name:
  assumes "line \<in> set lines"
    and "startswith (strip line) ''=='' \<or> startswith (strip line) ''>='' \<or> startswith (strip line) ''<=''"
    and "\<not> startswith (strip line) ''>==''" and "\<not> startswith (strip line) ''<==''"
  shows "\<exists>pkgs. read_requirements (Inr lines) = Inr pkgs \<and> [] \<in> pkgs"
proof -
  from assms(2) obtain c cs where s: "strip line = c # cs"
    by (cases "strip line") auto
  with assms(2) have "\<not> skipped line"
    by (auto simp: skipped_iff)
  moreover have "base_name (strip line) = []"
    using base_name_marker [of c cs] assms(2-4) unfolding s by presburger
  ultimately have "[] \<in> (\<lambda>l. lower (base_name (strip l))) ` {l \<in> set lines. \<not> skipped l}"
    using assms(1) by (force simp: lower_def)
  then show ?thesis by (simp add: read_requirements_eq)
qed

text \<open>The line \<open>==1.0\<close> declares the empty name.\<close>

theorem leading_marker_adds_empty_name_witness:
  "startswith (strip ''==1.0\<newline>'') ''=='' \<and> read_requirements (Inr [''==1.0\<newline>'']) = Inr {''''}"
proof -
  have 1: "strip ''==1.0\<newline>'' = ''==1.0''" by code_simp
  have 2: "read_requirements (Inr [''==1.0\<newline>'']) = Inr {''''}" by code_simp
  show ?thesis
    using leading_marker_adds_empty_name [of "''==1.0\<newline>''" "[''==1.0\<newline>'']"] 2
    by (simp add: 1)
qed

text \<open>
  The line \<open>>==1.0\<close> begins with the marker \<open>>=\<close> and is no comment, yet the declared
  set is \<open>{">"}\<close>, without the empty string.
\<close>

theorem leading_marker_overlap_counterexample:
  "startswith (strip ''>==1.0\<newline>'') ''>='' \<and>
   \<not> startswith (strip ''>==1.0\<newline>'') ''#'' \<and>
   read_requirements (Inr [''>==1.0\<newline>'']) = Inr {''>''} \<and>
   '''' \<notin> {''>''}"
  by code_simp

section \<open>What the source scanner returns\<close>

lemma py_sources_simps:
  "py_sources [] = []"
  "py_sources ((fname, f) # files) =
     (if endswith fname ''.py'' then f # py_sources files else py_sources files)"
  by (simp_all add: py_sources_def)

lemma scan_files_eq:
  "scan_files acc files =
     (case first_error (py_sources files) of
        Some e \<Rightarrow> Inl e
      | None \<Rightarrow> Inr (acc \<union> (\<Union>f \<in> set (py_sources files). imports_of f)))"
proof (induction acc files rule: scan_files.induct)
  case (1 acc)
  show ?case by (simp add: py_sources_simps)
next
  case (2 acc fname f files)
  show ?case
  proof (cases "endswith fname ''.py''")
    case False
    with 2 show ?thesis by (simp add: py_sources_simps split: option.splits)
  next
    case True
    show ?thesis
    proof (cases f)
      case (Inl e)
      with True show ?thesis by (simp add: py_sources_simps find_imports_in_file_def)
    next
      case (Inr ast)
      with True 2(1) [OF True, of "\<Union>item \<in> set (subnodes ast). visit {} item"]
      show ?thesis
        by (auto simp: py_sources_simps find_imports_eq imports_of_def split: option.splits)
    qed
  qed
qed

lemma scan_files_append:
  "scan_files acc (xs @ ys) =
     (case scan_files acc xs of Inl e \<Rightarrow> Inl e | Inr acc' \<Rightarrow> scan_files acc' ys)"
  by (induction acc xs rule: scan_files.induct) (auto split: sum.splits)

lemma scan_steps_concat: "scan_steps acc steps = scan_files acc (concat steps)"
  by (induction acc steps rule: scan_steps.induct) (auto simp: scan_files_append split: sum.splits)

lemma scan_all_py_files_eq:
  "scan_all_py_files t =
     (case first_error (py_sources (concat (os_walk t))) of
        Some e \<Rightarrow> Inl e
      | None \<Rightarrow> Inr (\<Union>f \<in> set (py_sources (concat (os_walk t))). imports_of f))"
  by (simp add: scan_all_py_files_def scan_steps_concat scan_files_eq split: option.splits)

lemma first_error_None_iff: "first_error fs = None \<longleftrightarrow> (\<forall>f \<in> set fs. \<forall>e. f \<noteq> Inl e)"
  by (induction fs rule: first_error.induct) auto

lemma first_error_Some: "first_error fs = Some e \<Longrightarrow> Inl e \<in> set fs"
  by (induction fs rule: first_error.induct) auto

lemma set_py_sources:
  "set (py_sources files) = {f. \<exists>file. (file, f) \<in> set files \<and> endswith file ''.py''}"
  by (force simp: py_sources_def)

lemma set_files_of:
  "set (files_of entries) = (\<Union>e \<in> {e \<in> set entries. \<not> is_dir e}. set (listed e))"
  by (induction entries rule: files_of.induct) auto

text \<open>The walk lists exactly the files that \<open>listed\<close> describes.\<close>

lemma set_walk_dir: "is_dir t \<Longrightarrow> set (concat (walk_dir t)) = set (listed t)"
proof (induction t)
  case (Dir dname entries)
  have "set (concat (walk_dir (Dir dname entries)))
      = set (files_of entries) \<union> (\<Union>e \<in> {e \<in> set entries. is_dir e}. set (concat (walk_dir e)))"
    by auto
  also have "\<dots> = (\<Union>e \<in> {e \<in> set entries. \<not> is_dir e}. set (listed e))
       \<union> (\<Union>e \<in> {e \<in> set entries. is_dir e}. set (listed e))"
    using Dir.IH by (simp add: set_files_of)
  also have "\<dots> = set (listed (Dir dname entries))"
    by auto
  finally show ?case .
qed simp_all

lemma set_os_walk_Dir:
  "set (concat (os_walk (Dir dname entries))) = set (listed (Dir dname entries))"
  using set_walk_dir [of "Dir dname entries"] by (simp add: os_walk_def)

lemma reordered_listed:
  "reordered t t' \<Longrightarrow>
     set (listed t) = set (listed t') \<and> set (concat (os_walk t)) = set (concat (os_walk t'))"
proof (induction rule: reordered.induct)
  case (reordered_File fname f)
  show ?case by simp
next
  case (reordered_Dir entries entries' entries'' dname)
  from reordered_Dir(1)
  have "(\<Union>e \<in> set entries. set (listed e)) = (\<Union>e \<in> set entries'. set (listed e))"
    by (induction rule: list_all2_induct) auto
  moreover from reordered_Dir(2) have "set entries'' = set entries'"
    by (rule mset_eq_setD)
  ultimately have "set (listed (Dir dname entries)) = set (listed (Dir dname entries''))"
    by simp
  then show ?case by (simp only: set_os_walk_Dir)
next
  case (reordered_Unlistable entries entries' entries'' dname)
  show ?case by (simp add: os_walk_def)
next
  case (reordered_DirLink entries entries' entries'' dname)
  from reordered_DirLink(1)
  have "(\<Union>e \<in> set entries. set (listed e)) = (\<Union>e \<in> set entries'. set (listed e))"
    by (induction rule: list_all2_induct) auto
  moreover from reordered_DirLink(2) have "set entries'' = set entries'"
    by (rule mset_eq_setD)
  ultimately have "set (listed (Dir dname entries)) = set (listed (Dir dname entries''))"
    by simp
  then have "set (concat (walk_dir (Dir dname entries))) = set (concat (walk_dir (Dir dname entries'')))"
    by (simp only: set_walk_dir is_dir.simps)
  then show ?case by (simp add: os_walk_def)
qed

lemma reordered_walk:
  assumes "reordered t t'"
  shows "set (concat (os_walk t)) = set (concat (os_walk t'))"
  using reordered_listed [OF assms] by simp

lemma finite_imports_of: "finite (imports_of f)"
  by (cases f) (simp_all add: imports_of_def visit_imported_names)

lemma finite_scan:
  assumes "scan_all_py_files t = Inr I"
  shows "finite I"
proof -
  from assms have "I = (\<Union>f \<in> set (py_sources (concat (os_walk t))). imports_of f)"
    by (simp add: scan_all_py_files_eq split: option.splits)
  then show ?thesis by (simp add: finite_imports_of)
qed

lemma finite_read_requirements:
  assumes "read_requirements m = Inr D"
  shows "finite D"
proof -
  from assms obtain lines where "m = Inr lines"
    by (cases m) (auto simp: read_requirements_def)
  with assms show ?thesis by (auto simp: read_requirements_eq)
qed

lemma scan_element:
  assumes "scan_all_py_files t = Inr I" and "x \<in> I"
  shows "\<exists>fname ast item m. (fname, Inr ast) \<in> set (concat (os_walk t)) \<and> endswith fname ''.py'' \<and>
           item \<in> set (subnodes ast) \<and> m \<in> set (imported_names item) \<and> x = root_name m"
proof -
  from assms(1) have "I = (\<Union>f \<in> set (py_sources (concat (os_walk t))). imports_of f)"
    by (simp add: scan_all_py_files_eq split: option.splits)
  with assms(2) obtain f where f: "f \<in> set (py_sources (concat (os_walk t)))" and x: "x \<in> imports_of f"
    by blast
  from x obtain ast where ast: "f = Inr ast" and "x \<in> (\<Union>item \<in> set (subnodes ast). visit {} item)"
    by (cases f) (auto simp: imports_of_def)
  then obtain item m where "item \<in> set (subnodes ast)" "m \<in> set (imported_names item)" "x = root_name m"
    by (auto simp: visit_imported_names)
  moreover from f ast obtain fname where "(fname, Inr ast) \<in> set (concat (os_walk t))" "endswith fname ''.py''"
    unfolding set_py_sources by blast
  ultimately show ?thesis by blast
qed

lemma root_name_no_dot: "CHR ''.'' \<notin> set (root_name m)"
  unfolding root_name_def by (blast dest: set_takeWhileD)

text \<open>
  Claim C9. The scanner is a function of the tree, and the order in which the
  directories list their entries does not matter: over the same tree listed in another
  order the scan returns the same set, and it fails over one exactly when it fails over
  the other.
\<close>

theorem scan_independent_of_listing_order:
  assumes "reordered t t'"
  shows "(scan_all_py_files t = Inr S \<longleftrightarrow> scan_all_py_files t' = Inr S) \<and>
         ((\<exists>e. scan_all_py_files t = Inl e) \<longleftrightarrow> (\<exists>e. scan_all_py_files t' = Inl e))"
proof -
  have eq: "set (py_sources (concat (os_walk t))) = set (py_sources (concat (os_walk t')))"
    by (simp only: set_py_sources reordered_walk [OF assms])
  then have "first_error (py_sources (concat (os_walk t))) = None \<longleftrightarrow>
      first_error (py_sources (concat (os_walk t'))) = None"
    by (simp add: first_error_None_iff)
  with eq show ?thesis
    by (auto simp: scan_all_py_files_eq split: option.splits)
qed

text \<open>
  A root with two files and two subdirectories, listed in two orders: the walks visit
  the files in different orders and the scans return the same set.
\<close>

theorem scan_independent_of_listing_order_witness:
  "reordered
     (Dir ''.'' [File ''a.py'' (Inr (Node [Import [Alias ''os'' None]])),
                 File ''b.py'' (Inr (Node [Import [Alias ''sys'' None]])),
                 Dir ''p'' [File ''c.py'' (Inr (Node [Import [Alias ''re'' None]]))],
                 Dir ''q'' [File ''d.py'' (Inr (Node [Import [Alias ''json'' None]]))]])
     (Dir ''.'' [Dir ''q'' [File ''d.py'' (Inr (Node [Import [Alias ''json'' None]]))],
                 File ''b.py'' (Inr (Node [Import [Alias ''sys'' None]])),
                 Dir ''p'' [File ''c.py'' (Inr (Node [Import [Alias ''re'' None]]))],
                 File ''a.py'' (Inr (Node [Import [Alias ''os'' None]]))]) \<and>
   map (map fst) (os_walk
     (Dir ''.'' [File ''a.py'' (Inr (Node [Import [Alias ''os'' None]])),
                 File ''b.py'' (Inr (Node [Import [Alias ''sys'' None]])),
                 Dir ''p'' [File ''c.py'' (Inr (Node [Import [Alias ''re'' None]]))],
                 Dir ''q'' [File ''d.py'' (Inr (Node [Import [Alias ''json'' None]]))]]))
     = [[''a.py'', ''b.py''], [''c.py''], [''d.py'']] \<and>
   map (map fst) (os_walk
     (Dir ''.'' [Dir ''q'' [File ''d.py'' (Inr (Node [Import [Alias ''json'' None]]))],
                 File ''b.py'' (Inr (Node [Import [Alias ''sys'' None]])),
                 Dir ''p'' [File ''c.py'' (Inr (Node [Import [Alias ''re'' None]]))],
                 File ''a.py'' (Inr (Node [Import [Alias ''os'' None]]))]))
     = [[''b.py'', ''a.py''], [''d.py''], [''c.py'']] \<and>
   scan_all_py_files
     (Dir ''.'' [File ''a.py'' (Inr (Node [Import [Alias ''os'' None]])),
                 File ''b.py'' (Inr (Node [Import [Alias ''sys'' None]])),
                 Dir ''p'' [File ''c.py'' (Inr (Node [Import [Alias ''re'' None]]))],
                 Dir ''q'' [File ''d.py'' (Inr (Node [Import [Alias ''json'' None]]))]])
     = Inr {''os'', ''sys'', ''re'', ''json''} \<and>
   scan_all_py_files
     (Dir ''.'' [Dir ''q'' [File ''d.py'' (Inr (Node [Import [Alias ''json'' None]]))],
                 File ''b.py'' (Inr (Node [Import [Alias ''sys'' None]])),
                 Dir ''p'' [File ''c.py'' (Inr (Node [Import [Alias ''re'' None]]))],
                 File ''a.py'' (Inr (Node [Import [Alias ''os'' None]]))])
     = Inr {''os'', ''sys'', ''re'', ''json''}"
proof -
  have p: "reordered (Dir ''p'' [File ''c.py'' (Inr (Node [Import [Alias ''re'' None]]))])
     (Dir ''p'' [File ''c.py'' (Inr (Node [Import [Alias ''re'' None]]))])"
    by (rule reordered_Dir [where entries' = "[File ''c.py'' (Inr (Node [Import [Alias ''re'' None]]))]"])
       (simp_all add: reordered_File)
  have q: "reordered (Dir ''q'' [File ''d.py'' (Inr (Node [Import [Alias ''json'' None]]))])
     (Dir ''q'' [File ''d.py'' (Inr (Node [Import [Alias ''json'' None]]))])"
    by (rule reordered_Dir [where entries' = "[File ''d.py'' (Inr (Node [Import [Alias ''json'' None]]))]"])
       (simp_all add: reordered_File)
  have r: "reordered
     (Dir ''.'' [File ''a.py'' (Inr (Node [Import [Alias ''os'' None]])),
                 File ''b.py'' (Inr (Node [Import [Alias ''sys'' None]])),
                 Dir ''p'' [File ''c.py'' (Inr (Node [Import [Alias ''re'' None]]))],
                 Dir ''q'' [File ''d.py'' (Inr (Node [Import [Alias ''json'' None]]))]])
     (Dir ''.'' [Dir ''q'' [File ''d.py'' (Inr (Node [Import [Alias ''json'' None]]))],
                 File ''b.py'' (Inr (Node [Import [Alias ''sys'' None]])),
                 Dir ''p'' [File ''c.py'' (Inr (Node [Import [Alias ''re'' None]]))],
                 File ''a.py'' (Inr (Node [Import [Alias ''os'' None]]))])"
    by (rule reordered_Dir [where entries' = "[File ''a.py'' (Inr (Node [Import [Alias ''os'' None]])),
                 File ''b.py'' (Inr (Node [Import [Alias ''sys'' None]])),
                 Dir ''p'' [File ''c.py'' (Inr (Node [Import [Alias ''re'' None]]))],
                 Dir ''q'' [File ''d.py'' (Inr (Node [Import [Alias ''json'' None]]))]]"])
       (simp_all add: reordered_File p q)
  have s: "scan_all_py_files
     (Dir ''.'' [File ''a.py'' (Inr (Node [Import [Alias ''os'' None]])),
                 File ''b.py'' (Inr (Node [Import [Alias ''sys'' None]])),
                 Dir ''p'' [File ''c.py'' (Inr (Node [Import [Alias ''re'' None]]))],
                 Dir ''q'' [File ''d.py'' (Inr (Node [Import [Alias ''json'' None]]))]])
     = Inr {''os'', ''sys'', ''re'', ''json''}"
    by code_simp
  have w: "map (map fst) (os_walk
     (Dir ''.'' [File ''a.py'' (Inr (Node [Import [Alias ''os'' None]])),
                 File ''b.py'' (Inr (Node [Import [Alias ''sys'' None]])),
                 Dir ''p'' [File ''c.py'' (Inr (Node [Import [Alias ''re'' None]]))],
                 Dir ''q'' [File ''d.py'' (Inr (Node [Import [Alias ''json'' None]]))]]))
     = [[''a.py'', ''b.py''], [''c.py''], [''d.py'']]"
    "map (map fst) (os_walk
     (Dir ''.'' [Dir ''q'' [File ''d.py'' (Inr (Node [Import [Alias ''json'' None]]))],
                 File ''b.py'' (Inr (Node [Import [Alias ''sys'' None]])),
                 Dir ''p'' [File ''c.py'' (Inr (Node [Import [Alias ''re'' None]]))],
                 File ''a.py'' (Inr (Node [Import [Alias ''os'' None]]))]))
     = [[''b.py'', ''a.py''], [''d.py''], [''c.py'']]"
    by (simp_all add: os_walk_def)
  show ?thesis
    using scan_independent_of_listing_order [OF r, of "{''os'', ''sys'', ''re'', ''json''}"] r s w
    by simp
qed

text \<open>
  Claim C7, as the code has it. When the walk of the tree lists a \<open>.py\<close> file that is not
  valid source, the scan returns no set: it fails with the error of the first \<open>.py\<close>
  file, in the order of the walk, that cannot be read or parsed. That is the parse error
  when no \<open>.py\<close> file the walk lists is unreadable. The run ends with that error before
  any line is printed. The files the walk lists are those of \<open>listed\<close>: a file below a
  directory that cannot be listed, or below a link to a directory, is never opened.
\<close>

theorem invalid_file_aborts_run:
  assumes "(fname, Inl SyntaxError) \<in> set (concat (os_walk src_dir))"
    and "endswith fname ''.py''"
  shows "\<exists>e. scan_all_py_files src_dir = Inl e \<and>
              main src_dir reqfile = ([], Some e) \<and>
              first_error (py_sources (concat (os_walk src_dir))) = Some e \<and>
              ((\<forall>fname'. (fname', Inl OSError) \<in> set (concat (os_walk src_dir)) \<longrightarrow>
                          \<not> endswith fname' ''.py'') \<longrightarrow> e = SyntaxError) \<and>
              (\<forall>dname entries. src_dir = Dir dname entries \<longrightarrow>
                 set (concat (os_walk src_dir)) = set (listed src_dir))"
proof -
  let ?fs = "py_sources (concat (os_walk src_dir))"
  from assms have "Inl SyntaxError \<in> set ?fs"
    unfolding set_py_sources by blast
  then have "first_error ?fs \<noteq> None"
    by (auto simp: first_error_None_iff)
  then obtain e where e: "first_error ?fs = Some e" by blast
  then have "Inl e \<in> set ?fs" by (rule first_error_Some)
  then have "\<exists>fname'. (fname', Inl e) \<in> set (concat (os_walk src_dir)) \<and> endswith fname' ''.py''"
    unfolding set_py_sources by blast
  then have "(\<forall>fname'. (fname', Inl OSError) \<in> set (concat (os_walk src_dir)) \<longrightarrow>
      \<not> endswith fname' ''.py'') \<longrightarrow> e = SyntaxError"
    by (cases e) auto
  moreover from e have "scan_all_py_files src_dir = Inl e"
    by (simp add: scan_all_py_files_eq)
  moreover have "\<forall>dname entries. src_dir = Dir dname entries \<longrightarrow>
      set (concat (os_walk src_dir)) = set (listed src_dir)"
  proof (intro allI impI)
    fix dname entries
    assume "src_dir = Dir dname entries"
    then show "set (concat (os_walk src_dir)) = set (listed src_dir)"
      by (simp only: set_os_walk_Dir)
  qed
  ultimately show ?thesis using e by (simp add: main_def)
qed

text \<open>A valid file at the root and an invalid one in a package: no line is printed.\<close>

theorem invalid_file_aborts_run_witness:
  "(''bad.py'', Inl SyntaxError) \<in> set (concat (os_walk
      (Dir ''.'' [File ''good.py'' (Inr (Node [Import [Alias ''os'' None]])),
                  Dir ''pkg'' [File ''bad.py'' (Inl SyntaxError)]]))) \<and>
   scan_all_py_files
      (Dir ''.'' [File ''good.py'' (Inr (Node [Import [Alias ''os'' None]])),
                  Dir ''pkg'' [File ''bad.py'' (Inl SyntaxError)]]) = Inl SyntaxError \<and>
   main (Dir ''.'' [File ''good.py'' (Inr (Node [Import [Alias ''os'' None]])),
                    Dir ''pkg'' [File ''bad.py'' (Inl SyntaxError)]])
        (Inr [''requests==2.31\<newline>'']) = ([], Some SyntaxError)"
proof -
  have 1: "(''bad.py'', Inl SyntaxError) \<in> set (concat (os_walk
      (Dir ''.'' [File ''good.py'' (Inr (Node [Import [Alias ''os'' None]])),
                  Dir ''pkg'' [File ''bad.py'' (Inl SyntaxError)]])))"
    by (simp add: os_walk_def)
  have 2: "endswith ''bad.py'' ''.py''" by (simp add: endswith_def)
  have 3: "scan_all_py_files
      (Dir ''.'' [File ''good.py'' (Inr (Node [Import [Alias ''os'' None]])),
                  Dir ''pkg'' [File ''bad.py'' (Inl SyntaxError)]]) = Inl SyntaxError"
    by code_simp
  show ?thesis
    using invalid_file_aborts_run [OF 1 2, of "Inr [''requests==2.31\<newline>'']"] 1 3 by simp
qed

text \<open>
  Two trees that contain an invalid \<open>.py\<close> file. In the first it lies in a directory
  that cannot be listed: the walk skips the directory and the scan returns a set. In the
  second the unreadable \<open>a.py\<close> is listed before the invalid \<open>b.py\<close>: the scan fails
  with the error of \<open>a.py\<close>, not with the parse error.
\<close>

theorem unreadable_file_first_counterexample:
  "(''bad.py'', Inl SyntaxError) \<in> set (files_under
      (Dir ''.'' [File ''ok.py'' (Inr (Node [Import [Alias ''os'' None]])),
                  Unlistable ''locked'' [File ''bad.py'' (Inl SyntaxError)]])) \<and>
   endswith ''bad.py'' ''.py'' \<and>
   scan_all_py_files
      (Dir ''.'' [File ''ok.py'' (Inr (Node [Import [Alias ''os'' None]])),
                  Unlistable ''locked'' [File ''bad.py'' (Inl SyntaxError)]]) = Inr {''os''} \<and>
   (''b.py'', Inl SyntaxError) \<in> set (files_under
      (Dir ''.'' [File ''a.py'' (Inl OSError), File ''b.py'' (Inl SyntaxError)])) \<and>
   endswith ''b.py'' ''.py'' \<and>
   scan_all_py_files (Dir ''.'' [File ''a.py'' (Inl OSError), File ''b.py'' (Inl SyntaxError)])
     = Inl OSError \<and>
   scan_all_py_files (Dir ''.'' [File ''a.py'' (Inl OSError), File ''b.py'' (Inl SyntaxError)])
     \<noteq> Inl SyntaxError"
  by code_simp

text \<open>
  Claim C5. When the scan returns the import set \<open>I\<close> and the reader the declared set
  \<open>D\<close>, the run prints four lines; the third lists exactly \<open>I - D\<close> and the fourth
  exactly \<open>D - I\<close>, each in increasing order and with no name twice.
\<close>

theorem report_is_set_difference:
  assumes "scan_all_py_files source_dir = Inr I" and "read_requirements reqfile = Inr D"
  shows "\<exists>found declared missing unused.
           main source_dir reqfile =
             ([(''Imports found in codebase:'', found),
               (''Packages in requirements.txt:'', declared),
               (''Possibly missing in requirements.txt (used in code, not listed):'', missing),
               (''Possibly unused in codebase (listed, but not imported directly):'', unused)],
              None) \<and>
           set missing = I - D \<and> sorted missing \<and> distinct missing \<and>
           set unused = D - I \<and> sorted unused \<and> distinct unused"
proof -
  have "finite I" using assms(1) by (rule finite_scan)
  moreover have "finite D" using assms(2) by (rule finite_read_requirements)
  ultimately show ?thesis using assms by (simp add: main_def)
qed

text \<open>Imports \<open>a\<close>, \<open>b\<close>, \<open>c\<close> against declared \<open>b\<close>, \<open>c\<close>, \<open>d\<close>: missing \<open>a\<close>, unused \<open>d\<close>.\<close>

theorem report_is_set_difference_witness:
  "main (Dir ''.'' [File ''m.py'' (Inr (Node [Import [Alias ''a'' None, Alias ''b'' None],
                                               ImportFrom (Some ''c'') [Alias ''x'' None] 0]))])
        (Inr [''b\<newline>'', ''c\<newline>'', ''d\<newline>'']) =
     ([(''Imports found in codebase:'', [''a'', ''b'', ''c'']),
       (''Packages in requirements.txt:'', [''b'', ''c'', ''d'']),
       (''Possibly missing in requirements.txt (used in code, not listed):'', [''a'']),
       (''Possibly unused in codebase (listed, but not imported directly):'', [''d''])],
      None)"
proof -
  have 1: "scan_all_py_files (Dir ''.'' [File ''m.py'' (Inr (Node [Import [Alias ''a'' None, Alias ''b'' None],
                                               ImportFrom (Some ''c'') [Alias ''x'' None] 0]))])
     = Inr {''a'', ''b'', ''c''}"
    by code_simp
  have 2: "read_requirements (Inr [''b\<newline>'', ''c\<newline>'', ''d\<newline>'']) = Inr {''b'', ''c'', ''d''}"
    by code_simp
  have 3: "main (Dir ''.'' [File ''m.py'' (Inr (Node [Import [Alias ''a'' None, Alias ''b'' None],
                                               ImportFrom (Some ''c'') [Alias ''x'' None] 0]))])
        (Inr [''b\<newline>'', ''c\<newline>'', ''d\<newline>'']) =
     ([(''Imports found in codebase:'', [''a'', ''b'', ''c'']),
       (''Packages in requirements.txt:'', [''b'', ''c'', ''d'']),
       (''Possibly missing in requirements.txt (used in code, not listed):'', [''a'']),
       (''Possibly unused in codebase (listed, but not imported directly):'', [''d''])],
      None)"
    by code_simp
  show ?thesis using report_is_set_difference [OF 1 2] 3 by simp
qed

lemma startswith_set: "startswith s p \<Longrightarrow> set p \<subseteq> set s"
  by (induction s p rule: startswith.induct) auto

lemma contains_set: "contains s p \<Longrightarrow> set p \<subseteq> set s"
proof (induction s)
  case Nil
  then show ?case by simp
next
  case (Cons c cs)
  from Cons.prems consider "startswith (c # cs) p" | "contains cs p" by auto
  then show ?case
  proof cases
    case 1
    then show ?thesis by (rule startswith_set)
  next
    case 2
    with Cons.IH show ?thesis by auto
  qed
qed

lemma identifier_no_marker:
  assumes "list_all identifier_char x"
  shows "\<not> contains x ''=='' \<and> \<not> contains x ''>='' \<and> \<not> contains x ''<=''"
proof -
  have "\<not> identifier_char CHR ''=''" by code_simp
  with assms have "CHR ''='' \<notin> set x" by (auto simp: list_all_iff)
  then show ?thesis by (auto dest: contains_set)
qed

lemma root_name_identifier:
  assumes "dotted_name m"
  shows "list_all identifier_char (root_name m)"
  using assms unfolding dotted_name_def root_name_def list_all_iff
  by (auto dest: set_takeWhileD)

lemma scan_element_identifier:
  assumes "scan_all_py_files t = Inr I" and "parsed_sources t" and "x \<in> I"
  shows "list_all identifier_char x"
proof -
  from scan_element [OF assms(1,3)] obtain fname ast item m
    where f: "(fname, Inr ast) \<in> set (concat (os_walk t))" "endswith fname ''.py''"
      and m: "item \<in> set (subnodes ast)" "m \<in> set (imported_names item)" "x = root_name m"
    by blast
  from f have "Inr ast \<in> set (py_sources (concat (os_walk t)))"
    unfolding set_py_sources by blast
  with assms(2) have "parsed ast"
    by (auto simp: parsed_sources_def list_all_iff)
  with m have "dotted_name m"
    by (auto simp: parsed_def list_all_iff)
  with m(3) show ?thesis by (simp add: root_name_identifier)
qed


text \<open>
  Claim C6, as the code has it. A name of the import set holds no \<open>.\<close>: it is the first
  path segment of a module name written in an import statement of a scanned file. With
  the module names as the parser returns them, it is made of identifier characters only
  and so holds no marker and no version text. A name of the declared set holds none of
  the markers \<open>==\<close>, \<open>>=\<close>, \<open><=\<close>.
\<close>

theorem sets_hold_root_names:
  "(scan_all_py_files t = Inr I \<longrightarrow>
      (\<forall>x \<in> I. CHR ''.'' \<notin> set x \<and>
         (\<exists>fname ast item m. (fname, Inr ast) \<in> set (concat (os_walk t)) \<and> endswith fname ''.py'' \<and>
             item \<in> set (subnodes ast) \<and> m \<in> set (imported_names item) \<and> x = root_name m))) \<and>
   (scan_all_py_files t = Inr I \<and> parsed_sources t \<longrightarrow>
      (\<forall>x \<in> I. list_all identifier_char x \<and>
         \<not> contains x ''=='' \<and> \<not> contains x ''>='' \<and> \<not> contains x ''<='')) \<and>
   (read_requirements reqfile = Inr D \<longrightarrow>
      (\<forall>x \<in> D. \<not> contains x ''=='' \<and> \<not> contains x ''>='' \<and> \<not> contains x ''<=''))"
proof -
  have 1: "scan_all_py_files t = Inr I \<longrightarrow>
      (\<forall>x \<in> I. CHR ''.'' \<notin> set x \<and>
         (\<exists>fname ast item m. (fname, Inr ast) \<in> set (concat (os_walk t)) \<and> endswith fname ''.py'' \<and>
             item \<in> set (subnodes ast) \<and> m \<in> set (imported_names item) \<and> x = root_name m))"
    using scan_element [of t I] root_name_no_dot by metis
  have 2: "scan_all_py_files t = Inr I \<and> parsed_sources t \<longrightarrow>
      (\<forall>x \<in> I. list_all identifier_char x \<and>
         \<not> contains x ''=='' \<and> \<not> contains x ''>='' \<and> \<not> contains x ''<='')"
    using scan_element_identifier [of t I] identifier_no_marker by blast
  have 3: "read_requirements reqfile = Inr D \<longrightarrow>
      (\<forall>x \<in> D. \<not> contains x ''=='' \<and> \<not> contains x ''>='' \<and> \<not> contains x ''<='')"
    using declared_no_marker [of reqfile D] by blast
  from 1 2 3 show ?thesis by (intro conjI)
qed


text \<open>One file with \<open>from foo.bar import baz\<close> and one manifest line.\<close>

theorem sets_hold_root_names_witness:
  "scan_all_py_files (Dir ''.'' [File ''m.py'' (Inr (Node [ImportFrom (Some ''foo.bar'') [Alias ''baz'' None] 0]))])
     = Inr {''foo''} \<and>
   parsed_sources (Dir ''.'' [File ''m.py'' (Inr (Node [ImportFrom (Some ''foo.bar'') [Alias ''baz'' None] 0]))]) \<and>
   CHR ''.'' \<notin> set ''foo'' \<and> list_all identifier_char ''foo'' \<and>
   \<not> contains ''foo'' ''=='' \<and> \<not> contains ''foo'' ''>='' \<and> \<not> contains ''foo'' ''<='' \<and>
   read_requirements (Inr [''zope.interface==5.0\<newline>'']) = Inr {''zope.interface''} \<and>
   \<not> contains ''zope.interface'' ''=='' \<and> \<not> contains ''zope.interface'' ''>='' \<and>
   \<not> contains ''zope.interface'' ''<=''"
proof -
  have 1: "scan_all_py_files (Dir ''.'' [File ''m.py'' (Inr (Node [ImportFrom (Some ''foo.bar'') [Alias ''baz'' None] 0]))])
     = Inr {''foo''}"
    by code_simp
  have 2: "read_requirements (Inr [''zope.interface==5.0\<newline>'']) = Inr {''zope.interface''}"
    by code_simp
  have 3: "parsed_sources (Dir ''.'' [File ''m.py'' (Inr (Node [ImportFrom (Some ''foo.bar'') [Alias ''baz'' None] 0]))])"
    by code_simp
  show ?thesis
    using sets_hold_root_names [of "Dir ''.'' [File ''m.py'' (Inr (Node [ImportFrom (Some ''foo.bar'') [Alias ''baz'' None] 0]))]"
       "{''foo''}" "Inr [''zope.interface==5.0\<newline>'']" "{''zope.interface''}"] 1 2 3
    by simp
qed


text \<open>
  Declared names keep a \<open>.\<close> and the version text of other operators: the lines
  \<open>zope.interface==5.0\<close> and \<open>numpy~=1.20\<close>.
\<close>

theorem declared_name_with_dot_counterexample:
  "read_requirements (Inr [''zope.interface==5.0\<newline>'', ''numpy~=1.20\<newline>''])
     = Inr {''zope.interface'', ''numpy~=1.20''} \<and>
   CHR ''.'' \<in> set ''zope.interface''"
  by code_simp

end
